theory Spec2Isabelle
  imports Main
begin

section \<open>HL7-over-MLLP ingestion service (srv/services/hl7Service.js)\<close>

text \<open>
  The service is embedded function by function.  A JavaScript string is a \<^typ>\<open>string\<close>,
  one \<^typ>\<open>char\<close> for each code unit; the model covers the strings whose code units lie in
  0..255.  The \<open>data\<close> handler is given the chunk as the string \<open>data.toString()\<close>
  returns: decoding the bytes of the socket is not part of the model.  \<open>console.log\<close> and
  the \<open>hl7.log\<close> file (whose write errors the code ignores) are not part of it either.
\<close>

subsection \<open>String primitives of the JavaScript runtime\<close>

definition VT :: char where "VT = CHR 0x0B"
definition FS :: char where "FS = CHR 0x1C"
definition CR :: char where "CR = CHR 0x0D"
definition LF :: char where "LF = CHR 0x0A"

text \<open>\<open>s.startsWith(p)\<close>.\<close>

definition startsWith :: "string \<Rightarrow> string \<Rightarrow> bool" where
  "startsWith s p = (take (length p) s = p)"

text \<open>\<open>s.includes(p)\<close>: \<open>p\<close> occurs in \<open>s\<close> as a contiguous run.\<close>

primrec js_includes :: "string \<Rightarrow> string \<Rightarrow> bool" where
  "js_includes [] p = (p = [])"
| "js_includes (x # xs) p = (startsWith (x # xs) p \<or> js_includes xs p)"

text \<open>\<open>s.split(c)\<close> for a one-character separator; the empty string splits into \<open>['']\<close>.\<close>

fun split :: "string \<Rightarrow> char \<Rightarrow> string list" where
  "split [] c = [[]]"
| "split (x # xs) c =
     (if x = c then [] # split xs c
      else (case split xs c of [] \<Rightarrow> [[x]] | y # ys \<Rightarrow> (x # y) # ys))"

text \<open>\<open>arr[i] || ''\<close>: a missing element (\<open>undefined\<close>) and the empty string both give \<open>''\<close>.\<close>

definition at_or_empty :: "string list \<Rightarrow> nat \<Rightarrow> string" where
  "at_or_empty arr i = (if i < length arr then arr ! i else [])"

text \<open>\<open>arr[i] || d\<close>.\<close>

definition at_or :: "string list \<Rightarrow> nat \<Rightarrow> string \<Rightarrow> string" where
  "at_or arr i d = (if at_or_empty arr i = [] then d else at_or_empty arr i)"

text \<open>\<open>message.replace(/\n/g, '\r')\<close>.\<close>

definition replace_lf_cr :: "string \<Rightarrow> string" where
  "replace_lf_cr s = map (\<lambda>c. if c = LF then CR else c) s"

text \<open>The white space and line terminators that \<open>trim\<close> strips, among the code units 0..255.\<close>

definition js_whitespace :: "char \<Rightarrow> bool" where
  "js_whitespace c = (c \<in> {CHR 0x09, CHR 0x0A, CHR 0x0B, CHR 0x0C, CHR 0x0D, CHR 0x20, CHR 0xA0})"

definition trim :: "string \<Rightarrow> string" where
  "trim s = rev (dropWhile js_whitespace (rev (dropWhile js_whitespace s)))"

text \<open>
  \<open>s.toUpperCase()\<close> on the letters a..z.  Upper-casing a code unit outside ASCII never yields
  an ASCII letter, so the comparisons of \<open>mapGender\<close> with \<open>'M'\<close> and \<open>'F'\<close> see the same
  result when such a unit is left as it is.
\<close>

definition upper_char :: "char \<Rightarrow> char" where
  "upper_char c =
     (case map_of (zip ''abcdefghijklmnopqrstuvwxyz'' ''ABCDEFGHIJKLMNOPQRSTUVWXYZ'') c of
        None \<Rightarrow> c | Some u \<Rightarrow> u)"

definition toUpperCase :: "string \<Rightarrow> string" where
  "toUpperCase s = map upper_char s"

text \<open>
  \<open>s.indexOf(p, position)\<close>: the position is clamped to \<open>0..s.length\<close>; the result is the
  first index at or after it where \<open>p\<close> starts, or \<open>-1\<close>.
\<close>

primrec find_from :: "string \<Rightarrow> string \<Rightarrow> nat \<Rightarrow> int" where
  "find_from [] p k = (if p = [] then int k else - 1)"
| "find_from (x # xs) p k = (if startsWith (x # xs) p then int k else find_from xs p (Suc k))"

definition indexOf :: "string \<Rightarrow> string \<Rightarrow> int \<Rightarrow> int" where
  "indexOf s p position =
     (let k = nat (max 0 (min position (int (length s)))) in find_from (drop k s) p k)"

text \<open>
  \<open>s.substring(a, b)\<close>: both indices are clamped to \<open>0..s.length\<close> and swapped when
  \<open>a > b\<close>; \<open>s.substring(a)\<close> runs to the end.
\<close>

definition clamp_index :: "string \<Rightarrow> int \<Rightarrow> nat" where
  "clamp_index s i = nat (max 0 (min i (int (length s))))"

definition substring :: "string \<Rightarrow> int \<Rightarrow> int \<Rightarrow> string" where
  "substring s a b =
     (let lo = min (clamp_index s a) (clamp_index s b);
          hi = max (clamp_index s a) (clamp_index s b)
      in take (hi - lo) (drop lo s))"

definition substring_from :: "string \<Rightarrow> int \<Rightarrow> string" where
  "substring_from s a = drop (clamp_index s a) s"

subsection \<open>Configuration and gender mapping\<close>

definition PATIENT_SSN_INDEX :: nat where "PATIENT_SSN_INDEX = 3"
definition PATIENT_NAME_INDEX :: nat where "PATIENT_NAME_INDEX = 5"
definition PATIENT_DOB_INDEX :: nat where "PATIENT_DOB_INDEX = 7"
definition PATIENT_GENDER_INDEX :: nat where "PATIENT_GENDER_INDEX = 8"
definition PATIENT_ADDRESS_INDEX :: nat where "PATIENT_ADDRESS_INDEX = 11"
definition PROCEDURE_CODE_INDEX :: nat where "PROCEDURE_CODE_INDEX = 4"
definition REASON_FOR_EXAM_INDEX :: nat where "REASON_FOR_EXAM_INDEX = 13"

lemmas HL7_CONFIG =
  PATIENT_SSN_INDEX_def PATIENT_NAME_INDEX_def PATIENT_DOB_INDEX_def PATIENT_GENDER_INDEX_def
  PATIENT_ADDRESS_INDEX_def PROCEDURE_CODE_INDEX_def REASON_FOR_EXAM_INDEX_def

text \<open>\<open>mapGender\<close>; \<open>None\<close> is JavaScript's \<open>null\<close>.\<close>

definition mapGender :: "string \<Rightarrow> string option" where
  "mapGender hl7Gender =
     (if hl7Gender = [] then None
      else if toUpperCase hl7Gender = ''M'' then Some ''male''
      else if toUpperCase hl7Gender = ''F'' then Some ''female''
      else Some ''other'')"

subsection \<open>Database requests issued by the handlers\<close>

text \<open>
  The handlers hand a statement, its parameters and a callback to the sqlite3 driver, which
  runs the statement after the handler has returned and reports a failure to the callback.
  A handler therefore yields the requests it issued; \<open>run_request\<close> below gives what a
  request does to the tables once the driver runs it.  The rows carry the columns the
  statements name.
\<close>

record patient_row =
  ssn :: string
  mobile_number :: string
  full_name :: string
  date_of_birth :: string
  gender :: "string option"
  address :: string

record visit_row =
  visit_id :: string
  patient_ssn :: string
  visit_status :: string
  primary_diagnosis :: string
  visit_type :: string
  department :: string
  created_by :: string

datatype db_request =
  UpsertPatient patient_row
| CreateVisitUnlessOpen string string

text \<open>The display name derived from PID-5 (lines 111 to 116 of the service).\<close>

definition fullName_of :: "string \<Rightarrow> string" where
  "fullName_of patientName =
     (if js_includes patientName ''^''
      then (let nameParts = split patientName (CHR ''^'')
            in trim (at_or_empty nameParts 1 @ '' '' @ at_or_empty nameParts 0))
      else patientName)"

definition find_segment :: "string list \<Rightarrow> string \<Rightarrow> string option" where
  "find_segment segments p = find (\<lambda>s. startsWith s p) segments"

definition handleADTPatientManual :: "string list \<Rightarrow> db_request list" where
  "handleADTPatientManual segments =
     (case find_segment segments ''PID|'' of
        None \<Rightarrow> []
      | Some pidSegment \<Rightarrow>
          (let pidFields = split pidSegment (CHR ''|'');
               ssn = at_or_empty pidFields PATIENT_SSN_INDEX;
               patientName = at_or_empty pidFields PATIENT_NAME_INDEX;
               dob = at_or_empty pidFields PATIENT_DOB_INDEX;
               gender = at_or_empty pidFields PATIENT_GENDER_INDEX;
               address = at_or_empty pidFields PATIENT_ADDRESS_INDEX;
               fullName = fullName_of patientName;
               dbGender = mapGender gender
           in if ssn = [] \<or> length ssn \<noteq> 14 then []
              else [UpsertPatient \<lparr>ssn = ssn, mobile_number = ''N/A'', full_name = fullName,
                                    date_of_birth = dob, gender = dbGender, address = address\<rparr>]))"

definition handleORMOrderManual :: "string list \<Rightarrow> db_request list" where
  "handleORMOrderManual segments =
     (case find_segment segments ''PID|'' of
        None \<Rightarrow> []
      | Some pidSegment \<Rightarrow>
          (case find_segment segments ''OBR|'' of
             None \<Rightarrow> []
           | Some obrSegment \<Rightarrow>
               (let pidFields = split pidSegment (CHR ''|'');
                    obrFields = split obrSegment (CHR ''|'');
                    ssn = at_or_empty pidFields PATIENT_SSN_INDEX;
                    procedureCode = at_or_empty obrFields PROCEDURE_CODE_INDEX;
                    procedureDesc = at_or (split procedureCode (CHR ''^'')) 1 procedureCode;
                    reasonForExam = at_or_empty obrFields REASON_FOR_EXAM_INDEX
                in if ssn = [] \<or> length ssn \<noteq> 14 then []
                   else [CreateVisitUnlessOpen ssn
                           (if reasonForExam = [] then procedureDesc else reasonForExam)])))"

text \<open>The segments of a raw message: line feeds become carriage returns, blank lines go.\<close>

definition segments_of :: "string \<Rightarrow> string list" where
  "segments_of message =
     filter (\<lambda>s. length (trim s) > 0) (split (replace_lf_cr message) CR)"

text \<open>
  \<open>processHL7MessageManual\<close>: the boolean is the function's result, the list holds the
  requests the invoked handler issued.
\<close>

definition processHL7MessageManual :: "string \<Rightarrow> bool \<times> db_request list" where
  "processHL7MessageManual message =
     (let segments = segments_of message in
      case find_segment segments ''MSH|'' of
        None \<Rightarrow> (False, [])
      | Some mshSegment \<Rightarrow>
          (let mshFields = split mshSegment (CHR ''|'');
               messageType = at_or_empty mshFields 8;
               parts = split messageType (CHR ''^'');
               type = (if js_includes messageType ''^'' then parts ! 0 else messageType);
               triggerEvent = (if js_includes messageType ''^'' then parts ! 1 else [])
           in if type = ''ADT'' \<and> (triggerEvent = ''A01'' \<or> triggerEvent = ''A08'')
              then (True, handleADTPatientManual segments)
              else if type = ''ORM'' \<and> triggerEvent = ''O01''
              then (True, handleORMOrderManual segments)
              else (True, [])))"

definition processHL7Message :: "string \<Rightarrow> bool \<times> db_request list" where
  "processHL7Message rawMessage = processHL7MessageManual rawMessage"

subsection \<open>Acknowledgment encoder\<close>

text \<open>
  \<open>sendAck\<close> reads the clock twice: for the \<open>YYYYMMDDHHMMSS\<close> stamp and for
  \<open>Date.now()\<close>.  Both readings are inputs of the model.
\<close>

record clock =
  timestamp :: string
  now :: nat

fun decimal :: "nat \<Rightarrow> string" where
  "decimal n =
     (if n < 10 then [''0123456789'' ! n]
      else decimal (n div 10) @ [''0123456789'' ! (n mod 10)])"

declare decimal.simps [simp del]

text \<open>What the handler does to the socket; it only ever writes.\<close>

datatype socket_call = SockWrite string | SockEnd | SockDestroy

definition ackMessage :: "clock \<Rightarrow> string \<Rightarrow> string \<Rightarrow> string" where
  "ackMessage clk ackCode messageId =
     [VT] @ ''MSH|^~'' @ [CHR 0x5C] @ ''&|RAD|FACILITY|SENDER|FACILITY|'' @ timestamp clk
     @ ''||ACK|'' @ (''ACK'' @ decimal (now clk)) @ ''|P|2.5'' @ [CR]
     @ ''MSA|'' @ ackCode @ ''|'' @ messageId @ [FS, CR]"

text \<open>
  \<open>sendAck(socket, success = true, messageId = 'MSG')\<close>; \<open>None\<close> is an argument the
  caller leaves out.
\<close>

definition sendAck :: "clock \<Rightarrow> bool \<Rightarrow> string option \<Rightarrow> socket_call" where
  "sendAck clk success messageId =
     SockWrite (ackMessage clk (if success then ''AA'' else ''AE'')
                  (case messageId of None \<Rightarrow> ''MSG'' | Some m \<Rightarrow> m))"

subsection \<open>Connection server: the \<open>data\<close> handler\<close>

definition vtIndex :: "string \<Rightarrow> int" where
  "vtIndex buffer = indexOf buffer [VT] 0"

definition fsIndex :: "string \<Rightarrow> int" where
  "fsIndex buffer = indexOf buffer [FS, CR] (vtIndex buffer)"

text \<open>
  One turn of the \<open>while\<close> loop: the frame cut out of the buffer, the calls made on the
  socket and the database requests issued while it was processed.
\<close>

record iteration =
  hl7Message :: string
  calls :: "socket_call list"
  requests :: "db_request list"

lemma find_from_nonempty: "0 \<le> find_from s p k \<Longrightarrow> p \<noteq> [] \<Longrightarrow> s \<noteq> []"
  by (cases s) auto

lemma buffer_shrinks:
  assumes "0 \<le> vtIndex buffer" and "vtIndex buffer < fsIndex buffer"
  shows "length (substring_from buffer (fsIndex buffer + 2)) < length buffer"
proof -
  from assms(1) have "buffer \<noteq> []"
    unfolding vtIndex_def indexOf_def by (auto dest: find_from_nonempty)
  moreover have "0 < clamp_index buffer (fsIndex buffer + 2)"
    using assms \<open>buffer \<noteq> []\<close> unfolding clamp_index_def by auto
  ultimately show ?thesis
    unfolding substring_from_def by simp
qed

text \<open>
  The loop of the \<open>data\<close> handler.  No operation of \<open>processHL7Message\<close> throws, so the
  \<open>catch\<close> branch is never taken; both call sites pass no message id to \<open>sendAck\<close>.
  \<open>clk n\<close> is the clock as the \<open>n\<close>-th acknowledgment of this event reads it.
\<close>

function on_data_loop :: "(nat \<Rightarrow> clock) \<Rightarrow> nat \<Rightarrow> string \<Rightarrow> iteration list \<times> string" where
  "on_data_loop clk n buffer =
     (if 0 \<le> vtIndex buffer \<and> vtIndex buffer < fsIndex buffer
      then (let msg = substring buffer (vtIndex buffer + 1) (fsIndex buffer);
                turn = \<lparr>hl7Message = msg,
                        calls = [sendAck (clk n) (fst (processHL7Message msg)) None],
                        requests = snd (processHL7Message msg)\<rparr>
            in case on_data_loop clk (Suc n) (substring_from buffer (fsIndex buffer + 2)) of
                 (turns, rest) \<Rightarrow> (turn # turns, rest))
      else ([], buffer))"
  by pat_completeness auto
termination
  by (relation "measure (\<lambda>(clk, n, buffer). length buffer)") (auto intro: buffer_shrinks)

declare on_data_loop.simps [simp del]

text \<open>\<open>socket.on('data', ...)\<close>: append the chunk to the connection's buffer, then loop.\<close>

definition on_data :: "(nat \<Rightarrow> clock) \<Rightarrow> string \<Rightarrow> string \<Rightarrow> iteration list \<times> string" where
  "on_data clk buffer chunk = on_data_loop clk 0 (buffer @ chunk)"

text \<open>
  The client's side of the framing, \<open>sendHL7Message\<close> of \<open>test-hl7.js\<close>:
  \<open>'\x0b' + message.replace(/\n/g, '\r') + '\x1c\r'\<close>.
\<close>

definition mllp_wrap :: "string \<Rightarrow> string" where
  "mllp_wrap message = [VT] @ replace_lf_cr message @ [FS, CR]"

subsection \<open>The repository: what the driver does with a request\<close>

text \<open>
  \<open>patients\<close> is keyed by its primary key \<open>ssn\<close>.  A statement named in \<open>failing\<close> fails
  with a storage error, which the driver hands to the statement's callback.
\<close>

datatype db_op = PatientUpsert | VisitLookup | VisitInsert

datatype db_error = StorageError

record database =
  patients :: "string \<rightharpoonup> patient_row"
  patient_visits :: "visit_row list"
  failing :: "db_op set"

text \<open>\<open>INSERT OR REPLACE INTO patients (...)\<close>\<close>

definition db_run_upsert_patient :: "database \<Rightarrow> patient_row \<Rightarrow> db_error + database" where
  "db_run_upsert_patient db r =
     (if PatientUpsert \<in> failing db then Inl StorageError
      else Inr (db\<lparr>patients := (patients db)(ssn r \<mapsto> r)\<rparr>))"

text \<open>
  \<open>SELECT visit_id FROM patient_visits WHERE patient_ssn = ? AND visit_status IN
  ('open', 'in_progress') AND created_by = 'hl7-system'\<close>, first row or none.
\<close>

definition open_system_visit :: "string \<Rightarrow> visit_row \<Rightarrow> bool" where
  "open_system_visit s v =
     (patient_ssn v = s \<and> (visit_status v = ''open'' \<or> visit_status v = ''in_progress'')
      \<and> created_by v = ''hl7-system'')"

definition db_get_open_visit :: "database \<Rightarrow> string \<Rightarrow> db_error + visit_row option" where
  "db_get_open_visit db s =
     (if VisitLookup \<in> failing db then Inl StorageError
      else Inr (find (open_system_visit s) (patient_visits db)))"

text \<open>\<open>INSERT INTO patient_visits (...)\<close>\<close>

definition db_run_insert_visit :: "database \<Rightarrow> visit_row \<Rightarrow> db_error + database" where
  "db_run_insert_visit db v =
     (if VisitInsert \<in> failing db then Inl StorageError
      else Inr (db\<lparr>patient_visits := patient_visits db @ [v]\<rparr>))"

text \<open>What the callbacks report, one constructor per log line.\<close>

datatype outcome =
  PatientUpdated | ErrorUpdatingPatient | OpenVisitExists | VisitCreated string
| ErrorCreatingVisit

text \<open>The callback of the duplicate check: \<open>uuid\<close> is what \<open>uuid.v4()\<close> returns.\<close>

definition insert_new_visit :: "string \<Rightarrow> string \<Rightarrow> string \<Rightarrow> database \<Rightarrow> outcome \<times> database" where
  "insert_new_visit uuid s reason db =
     (case db_run_insert_visit db
             \<lparr>visit_id = uuid, patient_ssn = s, visit_status = ''open'',
              primary_diagnosis = reason, visit_type = ''outpatient'',
              department = ''radiology'', created_by = ''hl7-system''\<rparr> of
        Inl err \<Rightarrow> (ErrorCreatingVisit, db)
      | Inr db' \<Rightarrow> (VisitCreated uuid, db'))"

fun run_request :: "string \<Rightarrow> db_request \<Rightarrow> database \<Rightarrow> outcome \<times> database" where
  "run_request uuid (UpsertPatient r) db =
     (case db_run_upsert_patient db r of
        Inl err \<Rightarrow> (ErrorUpdatingPatient, db)
      | Inr db' \<Rightarrow> (PatientUpdated, db'))"
| "run_request uuid (CreateVisitUnlessOpen s reason) db =
     (case db_get_open_visit db s of
        Inr (Some row) \<Rightarrow> (OpenVisitExists, db)
      | _ \<Rightarrow> insert_new_visit uuid s reason db)"

subsection \<open>Concrete inputs\<close>

text \<open>The clock used where a statement needs a concrete one.\<close>

definition wall_clock :: "nat \<Rightarrow> clock" where
  "wall_clock n = \<lparr>timestamp = ''20251005120001'', now = 1759665601000 + n\<rparr>"

text \<open>Two payloads that hold a line feed but neither the start byte nor the end marker.\<close>

definition two_line_payload :: string where
  "two_line_payload = ''MSH|x'' @ [LF] @ ''PID|1''"

definition fs_lf_payload :: string where
  "fs_lf_payload = ''MSH|x'' @ [FS, LF]"

text \<open>The pattern \<open>^\d{14}$\<close> that the other entry points of the repository test.\<close>

definition is_digit :: "char \<Rightarrow> bool" where
  "is_digit c = (c \<in> set ''0123456789'')"

definition matches_d14 :: "string \<Rightarrow> bool" where
  "matches_d14 s = (length s = 14 \<and> list_all is_digit s)"

text \<open>The admission message of the end-to-end scenario, its two segments and its row.\<close>

definition scenario_msh :: string where
  "scenario_msh = ''MSH|^~'' @ [CHR 0x5C] @ ''&|S|F|RAD|F|20251005120000||ADT^A01|MSG001|P|2.5''"

definition scenario_pid :: string where
  "scenario_pid = ''PID|1||26409301400274||AHMED^MOHAMED||19900101|M''"

definition scenario_message :: string where
  "scenario_message = scenario_msh @ [CR] @ scenario_pid"

definition scenario_patient :: patient_row where
  "scenario_patient =
     \<lparr>ssn = ''26409301400274'', mobile_number = ''N/A'', full_name = ''MOHAMED AHMED'',
      date_of_birth = ''19900101'', gender = Some ''male'', address = []\<rparr>"

text \<open>A message without a header segment.\<close>

definition headerless_message :: string where
  "headerless_message = ''PID|1||26409301400274||AHMED^MOHAMED||19900101|M''"

text \<open>An admission whose PID-3 holds fourteen letters.\<close>

definition letters_message :: string where
  "letters_message =
     ''MSH|^~'' @ [CHR 0x5C] @ ''&|S|F|RAD|F|20251005120000||ADT^A01|MSG003|P|2.5'' @ [CR]
     @ ''PID|1||ABCDEFGHIJKLMN||DOE^JANE||19900101|F''"

definition letters_patient :: patient_row where
  "letters_patient =
     \<lparr>ssn = ''ABCDEFGHIJKLMN'', mobile_number = ''N/A'', full_name = ''JANE DOE'',
      date_of_birth = ''19900101'', gender = Some ''female'', address = []\<rparr>"

definition empty_repository :: database where
  "empty_repository = \<lparr>patients = Map.empty, patient_visits = [], failing = {}\<rparr>"

text \<open>A repository that already holds the scenario's patient, with a mobile number.\<close>

definition existing_patient_repository :: database where
  "existing_patient_repository =
     \<lparr>patients = [''26409301400274'' \<mapsto>
                    \<lparr>ssn = ''26409301400274'', mobile_number = ''+20123456789'',
                     full_name = ''MOHAMED AHMED'', date_of_birth = ''19900101'',
                     gender = Some ''male'', address = ''15 Nile Street''\<rparr>],
      patient_visits = [], failing = {}\<rparr>"

text \<open>A repository whose patient upsert fails.\<close>

definition broken_repository :: database where
  "broken_repository =
     \<lparr>patients = Map.empty, patient_visits = [], failing = {PatientUpsert}\<rparr>"

text \<open>
  An order for the patient 26409301400275 with the reason HEADACHE, and repositories that
  already hold an open system-generated visit of that patient for CHEST PAIN.
\<close>

definition order_msh :: string where
  "order_msh = ''MSH|^~'' @ [CHR 0x5C] @ ''&|S|F|RAD|F|20251005120100||ORM^O01|MSG002|P|2.5''"

definition order_pid :: string where
  "order_pid = ''PID|1||26409301400275||AHMED^MOHAMED||19900101|M''"

definition order_obr :: string where
  "order_obr = ''OBR|1|ORDER001||RAD001^CHEST X-RAY^C4|||20251005120100||||||HEADACHE''"

definition order_message :: string where
  "order_message = order_msh @ [CR] @ order_pid @ [CR] @ order_obr"

definition chest_pain_visit :: visit_row where
  "chest_pain_visit =
     \<lparr>visit_id = ''v-1'', patient_ssn = ''26409301400275'', visit_status = ''open'',
      primary_diagnosis = ''CHEST PAIN'', visit_type = ''outpatient'',
      department = ''radiology'', created_by = ''hl7-system''\<rparr>"

definition headache_visit :: visit_row where
  "headache_visit =
     \<lparr>visit_id = ''v-2'', patient_ssn = ''26409301400275'', visit_status = ''open'',
      primary_diagnosis = ''HEADACHE'', visit_type = ''outpatient'',
      department = ''radiology'', created_by = ''hl7-system''\<rparr>"

definition pending_visit_repository :: database where
  "pending_visit_repository =
     \<lparr>patients = Map.empty, patient_visits = [chest_pain_visit], failing = {}\<rparr>"

definition lookup_down_repository :: database where
  "lookup_down_repository =
     \<lparr>patients = Map.empty, patient_visits = [chest_pain_visit], failing = {VisitLookup}\<rparr>"

text \<open>A statement of the request fails with a storage error when the driver runs it.\<close>

fun storage_error_occurs :: "db_request \<Rightarrow> database \<Rightarrow> bool" where
  "storage_error_occurs (UpsertPatient r) db = (PatientUpsert \<in> failing db)"
| "storage_error_occurs (CreateVisitUnlessOpen s reason) db =
     (VisitLookup \<in> failing db
      \<or> (find (open_system_visit s) (patient_visits db) = None \<and> VisitInsert \<in> failing db))"

text \<open>
  The bytes of an acknowledgment with the given code, spelt out: the frame, the header with
  the clock's stamp and \<open>Date.now()\<close>, and the MSA segment with the code and \<open>MSG\<close>.
\<close>

abbreviation ack_reply :: "clock \<Rightarrow> string \<Rightarrow> string" where
  "ack_reply c code \<equiv>
     [VT] @ ''MSH|^~'' @ [CHR 0x5C] @ ''&|RAD|FACILITY|SENDER|FACILITY|'' @ timestamp c
     @ ''||ACK|ACK'' @ decimal (now c) @ ''|P|2.5'' @ [CR] @ ''MSA|'' @ code @ ''|MSG''
     @ [FS, CR]"

text \<open>The row the Order handler asks the repository to insert.\<close>

abbreviation new_visit_row :: "string \<Rightarrow> string \<Rightarrow> string \<Rightarrow> visit_row" where
  "new_visit_row uuid ident reason \<equiv>
     \<lparr>visit_id = uuid, patient_ssn = ident, visit_status = ''open'',
      primary_diagnosis = reason, visit_type = ''outpatient'',
      department = ''radiology'', created_by = ''hl7-system''\<rparr>"

section \<open>Properties\<close>

subsection \<open>Framing\<close>

lemma js_includes_iff: "js_includes s p \<longleftrightarrow> (\<exists>a b. s = a @ p @ b)"
proof (induction s)
  case Nil
  then show ?case by auto
next
  case (Cons x xs)
  have "startsWith (x # xs) p \<longleftrightarrow> (\<exists>b. x # xs = p @ b)"
    unfolding startsWith_def by (metis append_eq_conv_conj)
  moreover have "(\<exists>a b. x # xs = a @ p @ b) \<longleftrightarrow> (\<exists>b. x # xs = p @ b) \<or> (\<exists>a b. xs = a @ p @ b)"
  proof
    assume "\<exists>a b. x # xs = a @ p @ b"
    then obtain a b where ab: "x # xs = a @ p @ b" by blast
    show "(\<exists>b. x # xs = p @ b) \<or> (\<exists>a b. xs = a @ p @ b)"
    proof (cases a)
      case Nil
      with ab show ?thesis by auto
    next
      case (Cons y ys)
      with ab have "xs = ys @ p @ b" by simp
      then show ?thesis by blast
    qed
  next
    assume "(\<exists>b. x # xs = p @ b) \<or> (\<exists>a b. xs = a @ p @ b)"
    then show "\<exists>a b. x # xs = a @ p @ b"
    proof
      assume "\<exists>b. x # xs = p @ b"
      then show ?thesis by (metis append_Nil)
    next
      assume "\<exists>a b. xs = a @ p @ b"
      then obtain a b where "xs = a @ p @ b" by blast
      then have "x # xs = (x # a) @ p @ b" by simp
      then show ?thesis by blast
    qed
  qed
  ultimately show ?case using Cons.IH by simp
qed

lemma find_from_end_marker:
  "\<not> js_includes p [FS, CR] \<Longrightarrow> find_from (p @ [FS, CR]) [FS, CR] k = int (k + length p)"
proof (induction p arbitrary: k)
  case Nil
  then show ?case by (simp add: startsWith_def)
next
  case (Cons x xs)
  from Cons.prems have no: "\<not> startsWith (x # xs) [FS, CR]" and rest: "\<not> js_includes xs [FS, CR]"
    by simp_all
  have "\<not> startsWith (x # xs @ [FS, CR]) [FS, CR]"
    using no by (cases xs) (auto simp: startsWith_def FS_def CR_def)
  then show ?case using Cons.IH [OF rest] by simp
qed

lemma vtIndex_frame: "vtIndex (VT # q @ [FS, CR]) = 0"
  by (simp add: vtIndex_def indexOf_def startsWith_def)

lemma fsIndex_frame:
  assumes "\<not> js_includes q [FS, CR]"
  shows "fsIndex (VT # q @ [FS, CR]) = 1 + int (length q)"
proof -
  have "\<not> startsWith (VT # q @ [FS, CR]) [FS, CR]"
    by (simp add: startsWith_def VT_def FS_def)
  then have "find_from (VT # q @ [FS, CR]) [FS, CR] 0 = find_from (q @ [FS, CR]) [FS, CR] (Suc 0)"
    by simp
  also have "\<dots> = int (Suc 0 + length q)"
    using assms by (rule find_from_end_marker)
  finally have found: "find_from (VT # q @ [FS, CR]) [FS, CR] 0 = 1 + int (length q)"
    by simp
  have "fsIndex (VT # q @ [FS, CR]) = find_from (VT # q @ [FS, CR]) [FS, CR] 0"
    by (simp add: fsIndex_def vtIndex_frame indexOf_def)
  with found show ?thesis by simp
qed

lemma frame_of_buffer: "substring (VT # q @ [FS, CR]) 1 (1 + int (length q)) = q"
proof -
  have "clamp_index (VT # q @ [FS, CR]) 1 = 1"
    by (simp add: clamp_index_def)
  moreover have "clamp_index (VT # q @ [FS, CR]) (1 + int (length q)) = 1 + length q"
    by (simp add: clamp_index_def nat_add_distrib)
  ultimately show ?thesis
    by (simp add: substring_def)
qed

lemma rest_of_buffer: "substring_from (VT # q @ [FS, CR]) (3 + int (length q)) = []"
  by (simp add: substring_from_def clamp_index_def nat_add_distrib)

lemma on_data_loop_empty: "on_data_loop clk n [] = ([], [])"
  by (simp add: on_data_loop.simps vtIndex_def indexOf_def)

lemma on_data_frame:
  assumes "\<not> js_includes q [FS, CR]"
  shows "on_data clk [] (VT # q @ [FS, CR]) =
           ([\<lparr>hl7Message = q,
              calls = [sendAck (clk 0) (fst (processHL7Message q)) None],
              requests = snd (processHL7Message q)\<rparr>], [])"
  unfolding on_data_def
  by (subst on_data_loop.simps)
     (simp add: vtIndex_frame fsIndex_frame [OF assms] frame_of_buffer rest_of_buffer
        on_data_loop_empty)

lemma replace_lf_cr_idem: "replace_lf_cr (replace_lf_cr s) = replace_lf_cr s"
  by (simp add: replace_lf_cr_def CR_def LF_def)

lemma replace_lf_cr_id: "LF \<notin> set s \<Longrightarrow> replace_lf_cr s = s"
  by (induction s) (auto simp: replace_lf_cr_def)

lemma processHL7Message_replace: "processHL7Message (replace_lf_cr s) = processHL7Message s"
  by (simp add: processHL7Message_def processHL7MessageManual_def segments_of_def
      replace_lf_cr_idem)

lemma on_data_wrap:
  assumes "\<not> js_includes (replace_lf_cr p) [FS, CR]"
  shows "on_data clk [] (mllp_wrap p) =
           ([\<lparr>hl7Message = replace_lf_cr p,
              calls = [sendAck (clk 0) (fst (processHL7Message p)) None],
              requests = snd (processHL7Message p)\<rparr>], [])"
  using on_data_frame [OF assms, of clk]
  by (simp add: mllp_wrap_def processHL7Message_replace)

text \<open>
  C8, as stated: wrapping a payload that holds neither the start byte nor the end marker and
  extracting the frames gives back exactly that payload and an empty buffer.  It does not:
  the wrapping rewrites line feeds.  A payload of two lines separated by a line feed comes
  back with a carriage return in its place, and a payload that ends in 0x1C 0x0A leaves
  0x1C 0x0D in the buffer.
\<close>

theorem mllp_roundtrip_line_feed_counterexample:
  "VT \<notin> set two_line_payload \<and> \<not> js_includes two_line_payload [FS, CR]
   \<and> map hl7Message (fst (on_data wall_clock [] (mllp_wrap two_line_payload)))
       \<noteq> [two_line_payload]
   \<and> VT \<notin> set fs_lf_payload \<and> \<not> js_includes fs_lf_payload [FS, CR]
   \<and> snd (on_data wall_clock [] (mllp_wrap fs_lf_payload)) \<noteq> []"
proof -
  have a: "VT \<notin> set two_line_payload \<and> \<not> js_includes two_line_payload [FS, CR]"
    by (simp add: two_line_payload_def startsWith_def VT_def FS_def CR_def LF_def)
  have "\<not> js_includes (replace_lf_cr two_line_payload) [FS, CR]"
    by (simp add: two_line_payload_def replace_lf_cr_def startsWith_def FS_def CR_def LF_def)
  then have "map hl7Message (fst (on_data wall_clock [] (mllp_wrap two_line_payload)))
       = [replace_lf_cr two_line_payload]"
    by (simp add: on_data_wrap)
  then have b: "map hl7Message (fst (on_data wall_clock [] (mllp_wrap two_line_payload)))
       \<noteq> [two_line_payload]"
    by (simp add: two_line_payload_def replace_lf_cr_def CR_def LF_def)
  have c: "VT \<notin> set fs_lf_payload \<and> \<not> js_includes fs_lf_payload [FS, CR]"
    by (simp add: fs_lf_payload_def startsWith_def VT_def FS_def CR_def LF_def)
  have "mllp_wrap fs_lf_payload = VT # ''MSH|x'' @ [FS, CR] @ [FS, CR]"
    by (simp add: mllp_wrap_def fs_lf_payload_def replace_lf_cr_def CR_def LF_def FS_def)
  then have "snd (on_data wall_clock [] (mllp_wrap fs_lf_payload)) = [FS, CR]"
    by (simp add: on_data_def on_data_loop.simps vtIndex_def fsIndex_def indexOf_def Let_def
        startsWith_def substring_def substring_from_def clamp_index_def VT_def FS_def CR_def)
  then have d: "snd (on_data wall_clock [] (mllp_wrap fs_lf_payload)) \<noteq> []"
    by simp
  from a b c d show ?thesis by blast
qed

text \<open>
  C8, amended.  A payload that holds neither the start byte, nor the end marker, nor a line
  feed comes back from wrapping and extraction as the one frame, and the buffer is empty
  afterwards.  With line feeds, the one frame is the payload with each line feed replaced
  by a carriage return, provided the rewritten payload does not hold the end marker.
\<close>

theorem mllp_roundtrip:
  "(VT \<notin> set payload \<and> \<not> js_includes payload [FS, CR] \<and> LF \<notin> set payload
      \<longrightarrow> map hl7Message (fst (on_data clk [] (mllp_wrap payload))) = [payload]
          \<and> snd (on_data clk [] (mllp_wrap payload)) = [])
   \<and> (\<not> js_includes (replace_lf_cr payload) [FS, CR]
      \<longrightarrow> map hl7Message (fst (on_data clk [] (mllp_wrap payload))) = [replace_lf_cr payload]
          \<and> snd (on_data clk [] (mllp_wrap payload)) = [])"
proof -
  have "map hl7Message (fst (on_data clk [] (mllp_wrap payload))) = [payload]
          \<and> snd (on_data clk [] (mllp_wrap payload)) = []"
    if "\<not> js_includes payload [FS, CR]" and "LF \<notin> set payload"
  proof -
    from that(2) have same: "replace_lf_cr payload = payload" by (rule replace_lf_cr_id)
    with that(1) have "\<not> js_includes (replace_lf_cr payload) [FS, CR]" by simp
    then show ?thesis by (simp add: on_data_wrap same)
  qed
  moreover have "map hl7Message (fst (on_data clk [] (mllp_wrap payload))) = [replace_lf_cr payload]
          \<and> snd (on_data clk [] (mllp_wrap payload)) = []"
    if "\<not> js_includes (replace_lf_cr payload) [FS, CR]"
    using that by (simp add: on_data_wrap)
  ultimately show ?thesis by blast
qed

theorem mllp_roundtrip_witness:
  "VT \<notin> set ''MSH|x'' \<and> \<not> js_includes ''MSH|x'' [FS, CR] \<and> LF \<notin> set ''MSH|x''
   \<and> map hl7Message (fst (on_data wall_clock [] (mllp_wrap ''MSH|x''))) = [''MSH|x'']
   \<and> snd (on_data wall_clock [] (mllp_wrap ''MSH|x'')) = []
   \<and> \<not> js_includes (replace_lf_cr two_line_payload) [FS, CR]
   \<and> map hl7Message (fst (on_data wall_clock [] (mllp_wrap two_line_payload)))
       = [''MSH|x'' @ [CR] @ ''PID|1'']"
proof -
  have a: "VT \<notin> set ''MSH|x'' \<and> \<not> js_includes ''MSH|x'' [FS, CR] \<and> LF \<notin> set ''MSH|x''"
    by (simp add: VT_def LF_def startsWith_def FS_def)
  have b: "\<not> js_includes (replace_lf_cr two_line_payload) [FS, CR]"
    by (simp add: two_line_payload_def replace_lf_cr_def startsWith_def FS_def CR_def LF_def)
  have c: "replace_lf_cr two_line_payload = ''MSH|x'' @ [CR] @ ''PID|1''"
    by (simp add: two_line_payload_def replace_lf_cr_def CR_def LF_def)
  note plain = mllp_roundtrip [of "''MSH|x''" wall_clock, THEN conjunct1]
  note lines = mllp_roundtrip [of two_line_payload wall_clock, THEN conjunct2]
  from plain a have d: "map hl7Message (fst (on_data wall_clock [] (mllp_wrap ''MSH|x''))) = [''MSH|x'']
          \<and> snd (on_data wall_clock [] (mllp_wrap ''MSH|x'')) = []"
    by blast
  from lines b c have e: "map hl7Message (fst (on_data wall_clock [] (mllp_wrap two_line_payload)))
       = [''MSH|x'' @ [CR] @ ''PID|1'']"
    by simp
  from a b d e show ?thesis by blast
qed

subsection \<open>Gender mapping\<close>

lemma upper_char_M: "upper_char c = CHR ''M'' \<longleftrightarrow> c = CHR ''M'' \<or> c = CHR ''m''"
  by (auto simp: upper_char_def split: if_splits)

lemma upper_char_F: "upper_char c = CHR ''F'' \<longleftrightarrow> c = CHR ''F'' \<or> c = CHR ''f''"
  by (auto simp: upper_char_def split: if_splits)

lemma toUpperCase_M: "toUpperCase g = ''M'' \<longleftrightarrow> g = ''M'' \<or> g = ''m''"
  by (cases g) (auto simp: toUpperCase_def upper_char_M)

lemma toUpperCase_F: "toUpperCase g = ''F'' \<longleftrightarrow> g = ''F'' \<or> g = ''f''"
  by (cases g) (auto simp: toUpperCase_def upper_char_F)

text \<open>
  C7, as stated: every input other than M and F, the empty string among them, maps to
  \<open>other\<close>.  The empty string does not: the function's first line returns \<open>null\<close> for it.
\<close>

theorem mapGender_empty_counterexample: "mapGender [] \<noteq> Some ''other''"
  by (simp add: mapGender_def)

text \<open>
  C7, amended.  The mapping takes M and m to \<open>male\<close>, F and f to \<open>female\<close>, the empty
  string to \<open>null\<close>, and every other input (O, U and any unrecognised code among them) to
  \<open>other\<close>.
\<close>

theorem mapGender_cases:
  "mapGender g =
     (if g = [] then None
      else if g = ''M'' \<or> g = ''m'' then Some ''male''
      else if g = ''F'' \<or> g = ''f'' then Some ''female''
      else Some ''other'')"
  unfolding mapGender_def toUpperCase_M toUpperCase_F by simp

theorem mapGender_cases_witness:
  "mapGender ''M'' = Some ''male'' \<and> mapGender ''f'' = Some ''female''
   \<and> mapGender ''U'' = Some ''other'' \<and> mapGender [] = None"
  using mapGender_cases [of "''M''"] mapGender_cases [of "''f''"] mapGender_cases [of "''U''"]
    mapGender_cases [of "[]"]
  by simp

subsection \<open>Parsing, routing and the acknowledgment code\<close>

lemmas parse_defs =
  processHL7Message_def processHL7MessageManual_def segments_of_def replace_lf_cr_def
  find_segment_def startsWith_def handleADTPatientManual_def handleORMOrderManual_def
  at_or_empty_def at_or_def HL7_CONFIG fullName_of_def trim_def js_whitespace_def mapGender_def
  toUpperCase_def upper_char_def CR_def LF_def VT_def FS_def

lemma processHL7Message_success:
  "fst (processHL7Message m) \<longleftrightarrow> find_segment (segments_of m) ''MSH|'' \<noteq> None"
  by (simp add: processHL7Message_def processHL7MessageManual_def Let_def split: option.splits)

lemma scenario_processed: "processHL7Message scenario_message = (True, [UpsertPatient scenario_patient])"
  by (simp add: scenario_message_def scenario_msh_def scenario_pid_def scenario_patient_def parse_defs)

lemma scenario_lf_free: "replace_lf_cr scenario_message = scenario_message"
  by (simp add: scenario_message_def scenario_msh_def scenario_pid_def replace_lf_cr_def
      CR_def LF_def)

lemma scenario_no_marker: "\<not> js_includes (replace_lf_cr scenario_message) [FS, CR]"
  by (simp add: scenario_message_def scenario_msh_def scenario_pid_def replace_lf_cr_def
      startsWith_def FS_def CR_def LF_def)

lemma headerless_no_marker: "\<not> js_includes (replace_lf_cr headerless_message) [FS, CR]"
  by (simp add: headerless_message_def replace_lf_cr_def startsWith_def FS_def CR_def LF_def)

lemma scenario_segments: "segments_of scenario_message = [scenario_msh, scenario_pid]"
  by (simp add: scenario_message_def scenario_msh_def scenario_pid_def segments_of_def
      replace_lf_cr_def trim_def js_whitespace_def CR_def LF_def)

lemma headerless_segments: "segments_of headerless_message = [headerless_message]"
  by (simp add: headerless_message_def segments_of_def replace_lf_cr_def trim_def
      js_whitespace_def CR_def LF_def)

lemma letters_processed: "processHL7Message letters_message = (True, [UpsertPatient letters_patient])"
  by (simp add: letters_message_def letters_patient_def parse_defs)

lemma sendAck_bytes:
  "sendAck c success None = SockWrite (ack_reply c (if success then ''AA'' else ''AE''))"
  by (simp add: sendAck_def ackMessage_def)

lemma ack_reply_codes_differ: "ack_reply c ''AA'' \<noteq> ack_reply c ''AE''"
  by simp

lemma reply_of_wrapped:
  assumes "\<not> js_includes (replace_lf_cr m) [FS, CR]"
  shows "map calls (fst (on_data clk [] (mllp_wrap m)))
         = [[SockWrite (ack_reply (clk 0)
               (if find_segment (segments_of m) ''MSH|'' = None then ''AE'' else ''AA''))]]"
  using processHL7Message_success [of m]
  by (simp add: on_data_wrap [OF assms] sendAck_bytes)

text \<open>
  C5 (acknowledgment code).  A frame holding an ADT^A01 message whose PID-3 is fourteen
  digits is answered with one write, the acknowledgment with code AA; a frame holding a
  message without any MSH segment is answered with one write, the acknowledgment with code
  AE.  The two acknowledgments differ, and the code depends on the frame alone: whatever
  the clocks of two runs on the same frame, one answers AA exactly when the other does.
\<close>

theorem ack_code_correct:
  assumes "\<not> js_includes (replace_lf_cr m) [FS, CR]"
  shows "(find_segment (segments_of m) ''MSH|'' = Some msh
           \<and> at_or_empty (split msh (CHR ''|'')) 8 = ''ADT^A01''
           \<and> find_segment (segments_of m) ''PID|'' = Some pid
           \<and> matches_d14 (at_or_empty (split pid (CHR ''|'')) 3)
          \<longrightarrow> map calls (fst (on_data clk [] (mllp_wrap m)))
                = [[SockWrite (ack_reply (clk 0) ''AA'')]])
         \<and> (find_segment (segments_of m) ''MSH|'' = None
          \<longrightarrow> map calls (fst (on_data clk [] (mllp_wrap m)))
                = [[SockWrite (ack_reply (clk 0) ''AE'')]])
         \<and> ack_reply (clk 0) ''AA'' \<noteq> ack_reply (clk 0) ''AE''
         \<and> (map calls (fst (on_data clk [] (mllp_wrap m)))
                = [[SockWrite (ack_reply (clk 0) ''AA'')]]
            \<longleftrightarrow> map calls (fst (on_data clk' [] (mllp_wrap m)))
                = [[SockWrite (ack_reply (clk' 0) ''AA'')]])"
proof -
  note reply = reply_of_wrapped [OF assms]
  have accept: "map calls (fst (on_data c [] (mllp_wrap m))) = [[SockWrite (ack_reply (c 0) ''AA'')]]
      \<longleftrightarrow> find_segment (segments_of m) ''MSH|'' \<noteq> None" for c
  proof (cases "find_segment (segments_of m) ''MSH|''")
    case None
    with reply [of c] ack_reply_codes_differ [of "c 0"] show ?thesis by auto
  next
    case (Some seg)
    with reply [of c] show ?thesis by auto
  qed
  have reject: "find_segment (segments_of m) ''MSH|'' = None
      \<Longrightarrow> map calls (fst (on_data clk [] (mllp_wrap m))) = [[SockWrite (ack_reply (clk 0) ''AE'')]]"
    using reply [of clk] by simp
  from accept [of clk] accept [of clk'] reject ack_reply_codes_differ [of "clk 0"]
  show ?thesis by auto
qed

theorem ack_code_correct_witness:
  "\<not> js_includes (replace_lf_cr scenario_message) [FS, CR]
   \<and> find_segment (segments_of scenario_message) ''MSH|'' = Some scenario_msh
   \<and> at_or_empty (split scenario_msh (CHR ''|'')) 8 = ''ADT^A01''
   \<and> find_segment (segments_of scenario_message) ''PID|'' = Some scenario_pid
   \<and> matches_d14 (at_or_empty (split scenario_pid (CHR ''|'')) 3)
   \<and> map calls (fst (on_data wall_clock [] (mllp_wrap scenario_message)))
       = [[SockWrite ([VT] @ ''MSH|^~'' @ [CHR 0x5C]
                      @ ''&|RAD|FACILITY|SENDER|FACILITY|20251005120001||ACK|ACK1759665601000|P|2.5''
                      @ [CR] @ ''MSA|AA|MSG'' @ [FS, CR])]]
   \<and> \<not> js_includes (replace_lf_cr headerless_message) [FS, CR]
   \<and> find_segment (segments_of headerless_message) ''MSH|'' = None
   \<and> map calls (fst (on_data wall_clock [] (mllp_wrap headerless_message)))
       = [[SockWrite ([VT] @ ''MSH|^~'' @ [CHR 0x5C]
                      @ ''&|RAD|FACILITY|SENDER|FACILITY|20251005120001||ACK|ACK1759665601000|P|2.5''
                      @ [CR] @ ''MSA|AE|MSG'' @ [FS, CR])]]"
proof -
  have msh: "find_segment (segments_of scenario_message) ''MSH|'' = Some scenario_msh"
    by (simp add: scenario_segments find_segment_def) (simp add: scenario_msh_def startsWith_def)
  have pid: "find_segment (segments_of scenario_message) ''PID|'' = Some scenario_pid"
    by (simp add: scenario_segments find_segment_def)
       (simp add: scenario_msh_def scenario_pid_def startsWith_def)
  have mtype: "at_or_empty (split scenario_msh (CHR ''|'')) 8 = ''ADT^A01''"
    by (simp add: scenario_msh_def at_or_empty_def)
  have d14: "matches_d14 (at_or_empty (split scenario_pid (CHR ''|'')) 3)"
    by (simp add: scenario_pid_def at_or_empty_def matches_d14_def is_digit_def)
  have none: "find_segment (segments_of headerless_message) ''MSH|'' = None"
    by (simp add: headerless_segments find_segment_def)
       (simp add: headerless_message_def startsWith_def)
  note accept = ack_code_correct [where m = scenario_message and msh = scenario_msh
      and pid = scenario_pid and clk = wall_clock, OF scenario_no_marker, THEN conjunct1]
  note reject = ack_code_correct [where m = headerless_message and clk = wall_clock,
      OF headerless_no_marker, THEN conjunct2, THEN conjunct1]
  from accept msh pid mtype d14
  have "map calls (fst (on_data wall_clock [] (mllp_wrap scenario_message)))
       = [[SockWrite (ack_reply (wall_clock 0) ''AA'')]]"
    by blast
  then have aa: "map calls (fst (on_data wall_clock [] (mllp_wrap scenario_message)))
       = [[SockWrite ([VT] @ ''MSH|^~'' @ [CHR 0x5C]
                      @ ''&|RAD|FACILITY|SENDER|FACILITY|20251005120001||ACK|ACK1759665601000|P|2.5''
                      @ [CR] @ ''MSA|AA|MSG'' @ [FS, CR])]]"
    by (simp add: wall_clock_def decimal.simps)
  from reject none
  have "map calls (fst (on_data wall_clock [] (mllp_wrap headerless_message)))
       = [[SockWrite (ack_reply (wall_clock 0) ''AE'')]]"
    by blast
  then have ae: "map calls (fst (on_data wall_clock [] (mllp_wrap headerless_message)))
       = [[SockWrite ([VT] @ ''MSH|^~'' @ [CHR 0x5C]
                      @ ''&|RAD|FACILITY|SENDER|FACILITY|20251005120001||ACK|ACK1759665601000|P|2.5''
                      @ [CR] @ ''MSA|AE|MSG'' @ [FS, CR])]]"
    by (simp add: wall_clock_def decimal.simps)
  from scenario_no_marker msh pid mtype d14 aa headerless_no_marker none ae show ?thesis
    by blast
qed

text \<open>
  C1 (the acknowledgment names the inbound control id).  The scenario message carries the
  control id MSG001 in MSH-10; the acknowledgment the handler writes for it names the
  default \<open>MSG\<close> of \<open>sendAck\<close> in its MSA segment, since neither call site passes an id.
\<close>

theorem ack_carries_placeholder_id:
  "segments_of scenario_message = [scenario_msh, scenario_pid]
   \<and> at_or_empty (split scenario_msh (CHR ''|'')) 9 = ''MSG001''
   \<and> map calls (fst (on_data wall_clock [] (mllp_wrap scenario_message)))
       = [[SockWrite ([VT] @ ''MSH|^~'' @ [CHR 0x5C]
                      @ ''&|RAD|FACILITY|SENDER|FACILITY|20251005120001||ACK|ACK1759665601000|P|2.5''
                      @ [CR] @ ''MSA|AA|MSG'' @ [FS, CR])]]"
  by (simp add: scenario_segments on_data_wrap [OF scenario_no_marker] scenario_lf_free
      scenario_processed sendAck_def ackMessage_def wall_clock_def decimal.simps)
     (simp add: scenario_msh_def at_or_empty_def)

text \<open>
  C2 (identifier validation).  An ADT^A01 message whose PID-3 is fourteen letters does not
  match \<open>^\d{14}$\<close>, yet the handler issues the upsert and the driver stores the row: the
  handler tests the length only.
\<close>

theorem adt_letters_identifier_written:
  "\<not> matches_d14 ''ABCDEFGHIJKLMN''
   \<and> snd (processHL7Message letters_message) = [UpsertPatient letters_patient]
   \<and> ssn letters_patient = ''ABCDEFGHIJKLMN''
   \<and> patients (snd (run_request ''v-1'' (UpsertPatient letters_patient) empty_repository))
        ''ABCDEFGHIJKLMN'' = Some letters_patient"
  by (simp add: letters_processed matches_d14_def is_digit_def db_run_upsert_patient_def
      empty_repository_def) (simp add: letters_patient_def)

subsection \<open>Patient-Admit handler\<close>





lemma handleADT_rows:
  "UpsertPatient r \<in> set (handleADTPatientManual segs) \<Longrightarrow> mobile_number r = ''N/A''"
  by (auto simp: handleADTPatientManual_def Let_def split: option.splits if_splits)

lemma adt_length_checked:
  "UpsertPatient r \<in> set (handleADTPatientManual segs) \<Longrightarrow> length (ssn r) = 14"
  by (auto simp: handleADTPatientManual_def Let_def split: option.splits if_splits)

lemma handleORM_requests:
  "q \<in> set (handleORMOrderManual segs) \<Longrightarrow> \<exists>s reason. q = CreateVisitUnlessOpen s reason"
  by (auto simp: handleORMOrderManual_def Let_def split: option.splits if_splits)




text \<open>
  C9 (mobile number).  Every patient row the handlers ask the repository to write has the
  mobile number \<open>N/A\<close>; once the upsert has run without a storage error the repository
  holds exactly that row under the identifier, whatever it held before.
\<close>

theorem adt_mobile_number_constant:
  assumes "UpsertPatient r \<in> set (snd (processHL7Message m))"
  shows "mobile_number r = ''N/A''
         \<and> (PatientUpsert \<notin> failing db
            \<longrightarrow> patients (snd (run_request uuid (UpsertPatient r) db)) (ssn r) = Some r)"
proof -
  from assms have "UpsertPatient r \<in> set (handleADTPatientManual (segments_of m))"
    by (auto simp: processHL7Message_def processHL7MessageManual_def Let_def
        split: option.splits if_splits dest: handleORM_requests)
  then have "mobile_number r = ''N/A''" by (rule handleADT_rows)
  then show ?thesis by (simp add: db_run_upsert_patient_def)
qed

theorem adt_mobile_number_constant_witness:
  "UpsertPatient scenario_patient \<in> set (snd (processHL7Message scenario_message))
   \<and> map_option mobile_number (patients existing_patient_repository ''26409301400274'')
       = Some ''+20123456789''
   \<and> PatientUpsert \<notin> failing existing_patient_repository
   \<and> map_option mobile_number
        (patients (snd (run_request ''v-1'' (UpsertPatient scenario_patient)
                          existing_patient_repository)) ''26409301400274'') = Some ''N/A''"
proof -
  have a: "UpsertPatient scenario_patient \<in> set (snd (processHL7Message scenario_message))"
    by (simp add: scenario_processed)
  have b: "PatientUpsert \<notin> failing existing_patient_repository"
    by (simp add: existing_patient_repository_def)
  have c: "map_option mobile_number (patients existing_patient_repository ''26409301400274'')
       = Some ''+20123456789''"
    by (simp add: existing_patient_repository_def)
  have d: "ssn scenario_patient = ''26409301400274''"
    by (simp add: scenario_patient_def)
  from adt_mobile_number_constant [OF a, of existing_patient_repository "''v-1''"] b d
  have "mobile_number scenario_patient = ''N/A''"
    and "patients (snd (run_request ''v-1'' (UpsertPatient scenario_patient)
                          existing_patient_repository)) ''26409301400274'' = Some scenario_patient"
    by simp_all
  with a b c show ?thesis by simp
qed

subsection \<open>Order handler\<close>

lemma find_open_system_visit:
  "find (open_system_visit s) vs \<noteq> None \<longleftrightarrow>
     (\<exists>v \<in> set vs. patient_ssn v = s
        \<and> (visit_status v = ''open'' \<or> visit_status v = ''in_progress'')
        \<and> created_by v = ''hl7-system'')"
  by (simp only: find_None_iff open_system_visit_def) blast

lemma run_order_request:
  "run_request uuid (CreateVisitUnlessOpen s reason) db =
     (if VisitLookup \<notin> failing db \<and> find (open_system_visit s) (patient_visits db) \<noteq> None
      then (OpenVisitExists, db)
      else if VisitInsert \<in> failing db then (ErrorCreatingVisit, db)
      else (VisitCreated uuid,
            db\<lparr>patient_visits := patient_visits db @ [new_visit_row uuid s reason]\<rparr>))"
  by (auto simp: db_get_open_visit_def insert_new_visit_def db_run_insert_visit_def
      split: option.splits)

lemma order_request_issued:
  assumes "find_segment (segments_of m) ''MSH|'' = Some msh"
    and "at_or_empty (split msh (CHR ''|'')) 8 = ''ORM^O01''"
    and "find_segment (segments_of m) ''PID|'' = Some pid"
    and "find_segment (segments_of m) ''OBR|'' = Some obr"
    and "ident = at_or_empty (split pid (CHR ''|'')) 3" and "length ident = 14"
    and "info = at_or_empty (split obr (CHR ''|'')) 13"
    and "service = at_or_empty (split obr (CHR ''|'')) 4"
    and "reason = (if info \<noteq> [] then info
                   else if at_or_empty (split service (CHR ''^'')) 1 \<noteq> []
                        then at_or_empty (split service (CHR ''^'')) 1
                   else service)"
  shows "snd (processHL7Message m) = [CreateVisitUnlessOpen ident reason]"
proof -
  from assms(5,6) have nonempty: "at_or_empty (split pid (CHR ''|'')) 3 \<noteq> []"
    and len: "length (at_or_empty (split pid (CHR ''|'')) 3) = 14"
    by auto
  have "handleORMOrderManual (segments_of m) = [CreateVisitUnlessOpen ident reason]"
    using assms(3,4,5,7,8,9) nonempty len
    by (simp add: handleORMOrderManual_def Let_def HL7_CONFIG at_or_def)
  then show ?thesis
    using assms(1,2)
    by (simp add: processHL7Message_def processHL7MessageManual_def Let_def startsWith_def)
qed

lemma order_segments: "segments_of order_message = [order_msh, order_pid, order_obr]"
  by (simp add: order_message_def order_msh_def order_pid_def order_obr_def segments_of_def
      replace_lf_cr_def trim_def js_whitespace_def CR_def LF_def)

lemma order_found:
  "find_segment (segments_of order_message) ''MSH|'' = Some order_msh"
  "find_segment (segments_of order_message) ''PID|'' = Some order_pid"
  "find_segment (segments_of order_message) ''OBR|'' = Some order_obr"
  by (simp_all add: order_segments find_segment_def)
     (simp_all add: order_msh_def order_pid_def order_obr_def startsWith_def)

lemma order_fields:
  "at_or_empty (split order_msh (CHR ''|'')) 8 = ''ORM^O01''"
  "at_or_empty (split order_pid (CHR ''|'')) 3 = ''26409301400275''"
  "at_or_empty (split order_obr (CHR ''|'')) 13 = ''HEADACHE''"
  "at_or_empty (split order_obr (CHR ''|'')) 4 = ''RAD001^CHEST X-RAY^C4''"
  by (simp_all add: order_msh_def order_pid_def order_obr_def at_or_empty_def)

lemma order_processed:
  "snd (processHL7Message order_message) = [CreateVisitUnlessOpen ''26409301400275'' ''HEADACHE'']"
  by (rule order_request_issued [OF order_found(1) order_fields(1) order_found(2,3)
        order_fields(2) [symmetric] _ order_fields(3) [symmetric] order_fields(4) [symmetric]])
     simp_all

text \<open>
  C3, as stated: a pending open visit with a different reason does not suppress the new
  visit.  It does: the query does not look at the reason.  The repository holds an open
  system-generated visit of the patient for CHEST PAIN, the order's reason is HEADACHE, and
  no visit is created.
\<close>

theorem order_other_reason_counterexample:
  "snd (processHL7Message order_message) = [CreateVisitUnlessOpen ''26409301400275'' ''HEADACHE'']
   \<and> map primary_diagnosis (patient_visits pending_visit_repository) = [''CHEST PAIN'']
   \<and> run_request ''v-2'' (CreateVisitUnlessOpen ''26409301400275'' ''HEADACHE'')
        pending_visit_repository
       = (OpenVisitExists, pending_visit_repository)"
  by (simp add: order_processed pending_visit_repository_def chest_pain_visit_def
      db_get_open_visit_def open_system_visit_def)

text \<open>
  C3, amended.  For every ORM^O01 message with a PID and an OBR segment and a PID-3 of
  length 14, the Order handler issues one request, for the identifier in PID-3 and the
  reason derived from OBR-13 and OBR-4.  That request suppresses the visit exactly when the
  duplicate check succeeds and the repository holds a visit of that patient identifier, with
  status open or in_progress, created by \<open>hl7-system\<close>, whatever its reason; the repository
  is then left as it was.  In every other case the insert runs: it appends the new open
  visit with the derived reason, or fails and leaves the repository as it was.
\<close>

theorem order_suppression_condition:
  assumes "find_segment (segments_of m) ''MSH|'' = Some msh"
    and "at_or_empty (split msh (CHR ''|'')) 8 = ''ORM^O01''"
    and "find_segment (segments_of m) ''PID|'' = Some pid"
    and "find_segment (segments_of m) ''OBR|'' = Some obr"
    and "ident = at_or_empty (split pid (CHR ''|'')) 3" and "length ident = 14"
    and "info = at_or_empty (split obr (CHR ''|'')) 13"
    and "service = at_or_empty (split obr (CHR ''|'')) 4"
    and "reason = (if info \<noteq> [] then info
                   else if at_or_empty (split service (CHR ''^'')) 1 \<noteq> []
                        then at_or_empty (split service (CHR ''^'')) 1
                   else service)"
  shows "snd (processHL7Message m) = [CreateVisitUnlessOpen ident reason]
         \<and> (fst (run_request uuid (CreateVisitUnlessOpen ident reason) db) = OpenVisitExists
            \<longleftrightarrow> VisitLookup \<notin> failing db
                \<and> (\<exists>v \<in> set (patient_visits db). patient_ssn v = ident
                      \<and> (visit_status v = ''open'' \<or> visit_status v = ''in_progress'')
                      \<and> created_by v = ''hl7-system''))
         \<and> (fst (run_request uuid (CreateVisitUnlessOpen ident reason) db) = OpenVisitExists
            \<longrightarrow> snd (run_request uuid (CreateVisitUnlessOpen ident reason) db) = db)
         \<and> (fst (run_request uuid (CreateVisitUnlessOpen ident reason) db) \<noteq> OpenVisitExists
              \<and> VisitInsert \<notin> failing db
            \<longrightarrow> run_request uuid (CreateVisitUnlessOpen ident reason) db
                 = (VisitCreated uuid,
                    db\<lparr>patient_visits := patient_visits db @ [new_visit_row uuid ident reason]\<rparr>))
         \<and> (fst (run_request uuid (CreateVisitUnlessOpen ident reason) db) \<noteq> OpenVisitExists
              \<and> VisitInsert \<in> failing db
            \<longrightarrow> run_request uuid (CreateVisitUnlessOpen ident reason) db
                 = (ErrorCreatingVisit, db))"
proof -
  have issued: "snd (processHL7Message m) = [CreateVisitUnlessOpen ident reason]"
    using assms by (rule order_request_issued)
  have outcome: "fst (run_request uuid (CreateVisitUnlessOpen ident reason) db) = OpenVisitExists
      \<longleftrightarrow> VisitLookup \<notin> failing db
          \<and> find (open_system_visit ident) (patient_visits db) \<noteq> None"
    unfolding run_order_request by simp
  show ?thesis
    unfolding outcome find_open_system_visit [symmetric]
    using issued unfolding run_order_request by simp
qed

theorem order_suppression_condition_witness:
  "find_segment (segments_of order_message) ''MSH|'' = Some order_msh
   \<and> at_or_empty (split order_msh (CHR ''|'')) 8 = ''ORM^O01''
   \<and> find_segment (segments_of order_message) ''PID|'' = Some order_pid
   \<and> find_segment (segments_of order_message) ''OBR|'' = Some order_obr
   \<and> at_or_empty (split order_pid (CHR ''|'')) 3 = ''26409301400275''
   \<and> at_or_empty (split order_obr (CHR ''|'')) 13 = ''HEADACHE''
   \<and> snd (processHL7Message order_message)
       = [CreateVisitUnlessOpen ''26409301400275'' ''HEADACHE'']
   \<and> VisitLookup \<notin> failing pending_visit_repository
   \<and> chest_pain_visit \<in> set (patient_visits pending_visit_repository)
   \<and> patient_ssn chest_pain_visit = ''26409301400275''
   \<and> visit_status chest_pain_visit = ''open''
   \<and> created_by chest_pain_visit = ''hl7-system''
   \<and> primary_diagnosis chest_pain_visit \<noteq> ''HEADACHE''
   \<and> fst (run_request ''v-2'' (CreateVisitUnlessOpen ''26409301400275'' ''HEADACHE'')
            pending_visit_repository) = OpenVisitExists
   \<and> snd (run_request ''v-2'' (CreateVisitUnlessOpen ''26409301400275'' ''HEADACHE'')
            pending_visit_repository) = pending_visit_repository
   \<and> fst (run_request ''v-2'' (CreateVisitUnlessOpen ''26409301400275'' ''HEADACHE'')
            empty_repository) \<noteq> OpenVisitExists
   \<and> VisitInsert \<notin> failing empty_repository
   \<and> run_request ''v-2'' (CreateVisitUnlessOpen ''26409301400275'' ''HEADACHE'')
        empty_repository
       = (VisitCreated ''v-2'', empty_repository\<lparr>patient_visits := [headache_visit]\<rparr>)"
proof -
  have a: "VisitLookup \<notin> failing pending_visit_repository"
    and b: "chest_pain_visit \<in> set (patient_visits pending_visit_repository)"
    by (simp_all add: pending_visit_repository_def)
  have c: "patient_ssn chest_pain_visit = ''26409301400275''"
    and d: "visit_status chest_pain_visit = ''open''"
    and e: "created_by chest_pain_visit = ''hl7-system''"
    and f: "primary_diagnosis chest_pain_visit \<noteq> ''HEADACHE''"
    by (simp_all add: chest_pain_visit_def)
  have len: "length ''26409301400275'' = 14" by simp
  have reason: "''HEADACHE'' = (if ''HEADACHE'' \<noteq> [] then ''HEADACHE''
        else if at_or_empty (split ''RAD001^CHEST X-RAY^C4'' (CHR ''^'')) 1 \<noteq> []
             then at_or_empty (split ''RAD001^CHEST X-RAY^C4'' (CHR ''^'')) 1
        else ''RAD001^CHEST X-RAY^C4'')"
    by simp
  note inst = order_suppression_condition [OF order_found(1) order_fields(1) order_found(2,3)
      order_fields(2) [symmetric] len order_fields(3) [symmetric] order_fields(4) [symmetric]
      reason]
  note pending = inst [of "''v-2''" pending_visit_repository]
  note fresh = inst [of "''v-2''" empty_repository]
  from pending have issued: "snd (processHL7Message order_message)
       = [CreateVisitUnlessOpen ''26409301400275'' ''HEADACHE'']"
    by blast
  from a b c d e have g: "VisitLookup \<notin> failing pending_visit_repository
          \<and> (\<exists>v \<in> set (patient_visits pending_visit_repository). patient_ssn v = ''26409301400275''
                \<and> (visit_status v = ''open'' \<or> visit_status v = ''in_progress'')
                \<and> created_by v = ''hl7-system'')"
    by blast
  from pending g have h: "fst (run_request ''v-2'' (CreateVisitUnlessOpen ''26409301400275'' ''HEADACHE'')
            pending_visit_repository) = OpenVisitExists"
    by blast
  from pending h have i: "snd (run_request ''v-2'' (CreateVisitUnlessOpen ''26409301400275'' ''HEADACHE'')
            pending_visit_repository) = pending_visit_repository"
    by blast
  have "\<not> (\<exists>v \<in> set (patient_visits empty_repository). patient_ssn v = ''26409301400275''
                \<and> (visit_status v = ''open'' \<or> visit_status v = ''in_progress'')
                \<and> created_by v = ''hl7-system'')"
    by (simp add: empty_repository_def)
  with fresh have j: "fst (run_request ''v-2'' (CreateVisitUnlessOpen ''26409301400275'' ''HEADACHE'')
            empty_repository) \<noteq> OpenVisitExists"
    by blast
  have k: "VisitInsert \<notin> failing empty_repository"
    by (simp add: empty_repository_def)
  from fresh j k have "run_request ''v-2'' (CreateVisitUnlessOpen ''26409301400275'' ''HEADACHE'')
        empty_repository
       = (VisitCreated ''v-2'',
          empty_repository\<lparr>patient_visits := patient_visits empty_repository
             @ [new_visit_row ''v-2'' ''26409301400275'' ''HEADACHE'']\<rparr>)"
    by blast
  then have l: "run_request ''v-2'' (CreateVisitUnlessOpen ''26409301400275'' ''HEADACHE'')
        empty_repository
       = (VisitCreated ''v-2'', empty_repository\<lparr>patient_visits := [headache_visit]\<rparr>)"
    by (simp add: empty_repository_def headache_visit_def)
  from order_found order_fields(1,2,3) issued a b c d e f h i j k l show ?thesis
    by blast
qed

text \<open>
  C10 (failing duplicate check).  For every ORM^O01 message with a PID and an OBR segment
  and a PID-3 of length 14 the Order handler issues the duplicate check.  When that check
  fails with a storage error the handler does not stop: the insert runs and, unless it
  fails too, appends the new open visit with the fresh identifier, the patient identifier
  and the derived reason, whatever visits the repository already holds.  That is the
  result the request has on a repository whose check succeeds and finds no open
  system-generated visit of the patient.
\<close>

theorem order_lookup_error_inserts:
  assumes "find_segment (segments_of m) ''MSH|'' = Some msh"
    and "at_or_empty (split msh (CHR ''|'')) 8 = ''ORM^O01''"
    and "find_segment (segments_of m) ''PID|'' = Some pid"
    and "find_segment (segments_of m) ''OBR|'' = Some obr"
    and "ident = at_or_empty (split pid (CHR ''|'')) 3" and "length ident = 14"
    and "info = at_or_empty (split obr (CHR ''|'')) 13"
    and "service = at_or_empty (split obr (CHR ''|'')) 4"
    and "reason = (if info \<noteq> [] then info
                   else if at_or_empty (split service (CHR ''^'')) 1 \<noteq> []
                        then at_or_empty (split service (CHR ''^'')) 1
                   else service)"
    and "VisitLookup \<in> failing db"
  shows "snd (processHL7Message m) = [CreateVisitUnlessOpen ident reason]
         \<and> (VisitInsert \<notin> failing db
            \<longrightarrow> run_request uuid (CreateVisitUnlessOpen ident reason) db
                 = (VisitCreated uuid,
                    db\<lparr>patient_visits := patient_visits db @ [new_visit_row uuid ident reason]\<rparr>))
         \<and> (VisitInsert \<in> failing db
            \<longrightarrow> run_request uuid (CreateVisitUnlessOpen ident reason) db
                 = (ErrorCreatingVisit, db))
         \<and> (VisitLookup \<notin> failing db'
              \<and> \<not> (\<exists>v \<in> set (patient_visits db'). patient_ssn v = ident
                      \<and> (visit_status v = ''open'' \<or> visit_status v = ''in_progress'')
                      \<and> created_by v = ''hl7-system'')
              \<and> VisitInsert \<notin> failing db'
            \<longrightarrow> run_request uuid (CreateVisitUnlessOpen ident reason) db'
                 = (VisitCreated uuid,
                    db'\<lparr>patient_visits := patient_visits db' @ [new_visit_row uuid ident reason]\<rparr>))"
proof -
  have issued: "snd (processHL7Message m) = [CreateVisitUnlessOpen ident reason]"
    using assms(1-9) by (rule order_request_issued)
  have clean: "run_request uuid (CreateVisitUnlessOpen ident reason) db'
                 = (VisitCreated uuid,
                    db'\<lparr>patient_visits := patient_visits db' @ [new_visit_row uuid ident reason]\<rparr>)"
    if "VisitLookup \<notin> failing db'"
      and "\<not> (\<exists>v \<in> set (patient_visits db'). patient_ssn v = ident
                      \<and> (visit_status v = ''open'' \<or> visit_status v = ''in_progress'')
                      \<and> created_by v = ''hl7-system'')"
      and "VisitInsert \<notin> failing db'"
    using that find_open_system_visit [of ident "patient_visits db'"]
    unfolding run_order_request by simp
  have failed: "run_request uuid (CreateVisitUnlessOpen ident reason) db
      = (if VisitInsert \<in> failing db then (ErrorCreatingVisit, db)
         else (VisitCreated uuid,
               db\<lparr>patient_visits := patient_visits db @ [new_visit_row uuid ident reason]\<rparr>))"
    using assms(10) unfolding run_order_request by simp
  from issued clean show ?thesis
    unfolding failed by simp
qed

theorem order_lookup_error_inserts_witness:
  "find_segment (segments_of order_message) ''MSH|'' = Some order_msh
   \<and> at_or_empty (split order_msh (CHR ''|'')) 8 = ''ORM^O01''
   \<and> find_segment (segments_of order_message) ''PID|'' = Some order_pid
   \<and> find_segment (segments_of order_message) ''OBR|'' = Some order_obr
   \<and> at_or_empty (split order_pid (CHR ''|'')) 3 = ''26409301400275''
   \<and> at_or_empty (split order_obr (CHR ''|'')) 13 = ''HEADACHE''
   \<and> snd (processHL7Message order_message)
       = [CreateVisitUnlessOpen ''26409301400275'' ''HEADACHE'']
   \<and> VisitLookup \<in> failing lookup_down_repository
   \<and> VisitInsert \<notin> failing lookup_down_repository
   \<and> patient_visits lookup_down_repository = [chest_pain_visit]
   \<and> run_request ''v-2'' (CreateVisitUnlessOpen ''26409301400275'' ''HEADACHE'')
        lookup_down_repository
       = (VisitCreated ''v-2'',
          lookup_down_repository\<lparr>patient_visits := [chest_pain_visit, headache_visit]\<rparr>)
   \<and> VisitLookup \<notin> failing empty_repository
   \<and> VisitInsert \<notin> failing empty_repository
   \<and> run_request ''v-2'' (CreateVisitUnlessOpen ''26409301400275'' ''HEADACHE'')
        empty_repository
       = (VisitCreated ''v-2'', empty_repository\<lparr>patient_visits := [headache_visit]\<rparr>)"
proof -
  have a: "VisitLookup \<in> failing lookup_down_repository"
    and b: "VisitInsert \<notin> failing lookup_down_repository"
    and c: "patient_visits lookup_down_repository = [chest_pain_visit]"
    by (simp_all add: lookup_down_repository_def)
  have d: "VisitLookup \<notin> failing empty_repository"
    and e: "VisitInsert \<notin> failing empty_repository"
    by (simp_all add: empty_repository_def)
  have none: "\<not> (\<exists>v \<in> set (patient_visits empty_repository). patient_ssn v = ''26409301400275''
                \<and> (visit_status v = ''open'' \<or> visit_status v = ''in_progress'')
                \<and> created_by v = ''hl7-system'')"
    by (simp add: empty_repository_def)
  have len: "length ''26409301400275'' = 14" by simp
  have reason: "''HEADACHE'' = (if ''HEADACHE'' \<noteq> [] then ''HEADACHE''
        else if at_or_empty (split ''RAD001^CHEST X-RAY^C4'' (CHR ''^'')) 1 \<noteq> []
             then at_or_empty (split ''RAD001^CHEST X-RAY^C4'' (CHR ''^'')) 1
        else ''RAD001^CHEST X-RAY^C4'')"
    by simp
  note inst = order_lookup_error_inserts [OF order_found(1) order_fields(1) order_found(2,3)
      order_fields(2) [symmetric] len order_fields(3) [symmetric] order_fields(4) [symmetric]
      reason a, of "''v-2''" empty_repository]
  from inst have issued: "snd (processHL7Message order_message)
       = [CreateVisitUnlessOpen ''26409301400275'' ''HEADACHE'']"
    by blast
  from inst b have "run_request ''v-2'' (CreateVisitUnlessOpen ''26409301400275'' ''HEADACHE'')
        lookup_down_repository
       = (VisitCreated ''v-2'',
          lookup_down_repository\<lparr>patient_visits := patient_visits lookup_down_repository
             @ [new_visit_row ''v-2'' ''26409301400275'' ''HEADACHE'']\<rparr>)"
    by blast
  then have f: "run_request ''v-2'' (CreateVisitUnlessOpen ''26409301400275'' ''HEADACHE'')
        lookup_down_repository
       = (VisitCreated ''v-2'',
          lookup_down_repository\<lparr>patient_visits := [chest_pain_visit, headache_visit]\<rparr>)"
    by (simp add: c headache_visit_def)
  from inst d e none have "run_request ''v-2'' (CreateVisitUnlessOpen ''26409301400275'' ''HEADACHE'')
        empty_repository
       = (VisitCreated ''v-2'',
          empty_repository\<lparr>patient_visits := patient_visits empty_repository
             @ [new_visit_row ''v-2'' ''26409301400275'' ''HEADACHE'']\<rparr>)"
    by blast
  then have g: "run_request ''v-2'' (CreateVisitUnlessOpen ''26409301400275'' ''HEADACHE'')
        empty_repository
       = (VisitCreated ''v-2'', empty_repository\<lparr>patient_visits := [headache_visit]\<rparr>)"
    by (simp add: empty_repository_def headache_visit_def)
  from order_found order_fields(1,2,3) issued a b c d e f g show ?thesis
    by blast
qed

subsection \<open>Storage errors and the acknowledgment\<close>

lemma requests_imply_success: "q \<in> set (snd (processHL7Message m)) \<Longrightarrow> fst (processHL7Message m)"
  by (auto simp: processHL7Message_def processHL7MessageManual_def Let_def split: option.splits)

lemma on_data_loop_turn:
  "i < length (fst (on_data_loop clk n buffer)) \<Longrightarrow>
     calls (fst (on_data_loop clk n buffer) ! i)
       = [sendAck (clk (n + i))
            (fst (processHL7Message (hl7Message (fst (on_data_loop clk n buffer) ! i)))) None]
     \<and> requests (fst (on_data_loop clk n buffer) ! i)
       = snd (processHL7Message (hl7Message (fst (on_data_loop clk n buffer) ! i)))"
proof (induction clk n buffer arbitrary: i rule: on_data_loop.induct)
  case (1 clk n buffer)
  show ?case
  proof (cases "0 \<le> vtIndex buffer \<and> vtIndex buffer < fsIndex buffer")
    case False
    with "1.prems" show ?thesis by (simp add: on_data_loop.simps)
  next
    case True
    define msg where "msg = substring buffer (vtIndex buffer + 1) (fsIndex buffer)"
    define first where "first = \<lparr>hl7Message = msg,
                        calls = [sendAck (clk n) (fst (processHL7Message msg)) None],
                        requests = snd (processHL7Message msg)\<rparr>"
    define rest where "rest = on_data_loop clk (Suc n) (substring_from buffer (fsIndex buffer + 2))"
    have unfold: "fst (on_data_loop clk n buffer) = first # fst rest"
      using True
      by (subst on_data_loop.simps)
         (simp add: msg_def first_def rest_def Let_def split: prod.splits)
    show ?thesis
    proof (cases i)
      case 0
      then show ?thesis by (simp add: unfold first_def)
    next
      case (Suc j)
      with "1.prems" unfold have "j < length (fst rest)" by simp
      from "1.IH" [OF True refl refl this [unfolded rest_def]] Suc show ?thesis
        by (simp add: unfold rest_def)
    qed
  qed
qed

text \<open>
  C4, as stated: a storage error in the handler's repository operation gives an
  acknowledgment with code AE.  It does not: the upsert of the scenario message fails and
  the acknowledgment written for it has code AA.
\<close>

theorem storage_error_counterexample:
  "fst (on_data wall_clock [] (mllp_wrap scenario_message))
     = [\<lparr>hl7Message = scenario_message,
         calls = [SockWrite ([VT] @ ''MSH|^~'' @ [CHR 0x5C]
                    @ ''&|RAD|FACILITY|SENDER|FACILITY|20251005120001||ACK|ACK1759665601000|P|2.5''
                    @ [CR] @ ''MSA|AA|MSG'' @ [FS, CR])],
         requests = [UpsertPatient scenario_patient]\<rparr>]
   \<and> run_request ''v-1'' (UpsertPatient scenario_patient) broken_repository
       = (ErrorUpdatingPatient, broken_repository)"
  by (simp add: on_data_wrap [OF scenario_no_marker] scenario_lf_free scenario_processed
      sendAck_def ackMessage_def wall_clock_def decimal.simps
      db_run_upsert_patient_def broken_repository_def)

text \<open>
  C4, amended.  For every frame whose handler issued a request in which a statement then
  fails with a storage error (the patient upsert, the duplicate check or the visit insert),
  the handler's only call on the socket is the write of the acknowledgment with code AA; it
  neither ends nor destroys the connection.
\<close>

theorem storage_error_still_accepted:
  assumes "i < length (fst (on_data clk buffer chunk))"
    and "q \<in> set (requests (fst (on_data clk buffer chunk) ! i))"
    and "storage_error_occurs q db"
  shows "calls (fst (on_data clk buffer chunk) ! i) = [SockWrite (ack_reply (clk i) ''AA'')]
         \<and> SockEnd \<notin> set (calls (fst (on_data clk buffer chunk) ! i))
         \<and> SockDestroy \<notin> set (calls (fst (on_data clk buffer chunk) ! i))"
proof -
  let ?turn = "fst (on_data clk buffer chunk) ! i"
  from assms(1) have k: "calls ?turn = [sendAck (clk i) (fst (processHL7Message (hl7Message ?turn))) None]"
    and r: "requests ?turn = snd (processHL7Message (hl7Message ?turn))"
    unfolding on_data_def using on_data_loop_turn [of i clk 0 "buffer @ chunk"] by simp_all
  from assms(2) r have "fst (processHL7Message (hl7Message ?turn))"
    by (simp add: requests_imply_success)
  with k have "calls ?turn = [SockWrite (ack_reply (clk i) ''AA'')]"
    by (simp add: sendAck_bytes)
  then show ?thesis by simp
qed

theorem storage_error_still_accepted_witness:
  "0 < length (fst (on_data wall_clock [] (mllp_wrap scenario_message)))
   \<and> UpsertPatient scenario_patient
       \<in> set (requests (fst (on_data wall_clock [] (mllp_wrap scenario_message)) ! 0))
   \<and> storage_error_occurs (UpsertPatient scenario_patient) broken_repository
   \<and> fst (run_request ''v-1'' (UpsertPatient scenario_patient) broken_repository)
       = ErrorUpdatingPatient
   \<and> calls (fst (on_data wall_clock [] (mllp_wrap scenario_message)) ! 0)
       = [SockWrite ([VT] @ ''MSH|^~'' @ [CHR 0x5C]
                    @ ''&|RAD|FACILITY|SENDER|FACILITY|20251005120001||ACK|ACK1759665601000|P|2.5''
                    @ [CR] @ ''MSA|AA|MSG'' @ [FS, CR])]"
proof -
  have a: "0 < length (fst (on_data wall_clock [] (mllp_wrap scenario_message)))"
    by (simp add: on_data_wrap [OF scenario_no_marker])
  have b: "UpsertPatient scenario_patient
       \<in> set (requests (fst (on_data wall_clock [] (mllp_wrap scenario_message)) ! 0))"
    by (simp add: on_data_wrap [OF scenario_no_marker] scenario_processed)
  have c: "storage_error_occurs (UpsertPatient scenario_patient) broken_repository"
    by (simp add: broken_repository_def)
  have d: "fst (run_request ''v-1'' (UpsertPatient scenario_patient) broken_repository)
       = ErrorUpdatingPatient"
    by (simp add: db_run_upsert_patient_def broken_repository_def)
  from storage_error_still_accepted [OF a b c]
  have "calls (fst (on_data wall_clock [] (mllp_wrap scenario_message)) ! 0)
       = [SockWrite (ack_reply (wall_clock 0) ''AA'')]"
    by blast
  then have e: "calls (fst (on_data wall_clock [] (mllp_wrap scenario_message)) ! 0)
       = [SockWrite ([VT] @ ''MSH|^~'' @ [CHR 0x5C]
                    @ ''&|RAD|FACILITY|SENDER|FACILITY|20251005120001||ACK|ACK1759665601000|P|2.5''
                    @ [CR] @ ''MSA|AA|MSG'' @ [FS, CR])]"
    by (simp add: wall_clock_def decimal.simps)
  from a b c d e show ?thesis by blast
qed

end
